theory Spec2Isabelle
  imports Complex_Main
begin

section \<open>Strings\<close>

text \<open>
  A text is a \<^typ>\<open>string\<close>; a character stands for one code unit below 256 (the Latin-1
  range), where \<^verbatim>\<open>String.prototype.toLowerCase\<close>, the regular expression class
  \<^verbatim>\<open>\s\<close> and \<^verbatim>\<open>String.prototype.trim\<close> act on single characters.
\<close>

definition isSpace :: "char \<Rightarrow> bool" where
  \<comment> \<open>\<^verbatim>\<open>\s\<close>: TAB, LF, VT, FF, CR, SPACE and NBSP.\<close>
  "isSpace c = (let n = (of_char c :: nat) in (9 \<le> n \<and> n \<le> 13) \<or> n = 32 \<or> n = 160)"

definition toLowerChar :: "char \<Rightarrow> char" where
  "toLowerChar c =
     (let n = (of_char c :: nat)
      in if (65 \<le> n \<and> n \<le> 90) \<or> (192 \<le> n \<and> n \<le> 222 \<and> n \<noteq> 215)
         then char_of (n + 32) else c)"

definition toLowerCase :: "string \<Rightarrow> string" where
  "toLowerCase s = map toLowerChar s"

text \<open>
  \<^verbatim>\<open>s.split(/\s+/)\<close>: the pieces between the maximal runs of white space. A run at
  the start or at the end leaves an empty piece there, and the empty text gives the single
  piece \<^verbatim>\<open>""\<close>.
\<close>

function split_ws :: "string \<Rightarrow> string list" where
  "split_ws s =
     (let w = takeWhile (\<lambda>c. \<not> isSpace c) s;
          r = dropWhile (\<lambda>c. \<not> isSpace c) s
      in if r = [] then [w] else w # split_ws (dropWhile isSpace r))"
  by pat_completeness auto
termination
proof (relation "measure length")
  show "wf (measure length)" by simp
next
  fix s :: string and w r
  assume r: "r = dropWhile (\<lambda>c. \<not> isSpace c) s" and ne: "r \<noteq> []"
  from ne obtain c cs where rc: "r = c # cs" by (cases r) auto
  have "dropWhile (\<lambda>c. \<not> isSpace c) s \<noteq> []" using ne r by simp
  from hd_dropWhile [OF this] have "isSpace c" using r rc by (metis list.sel(1))
  then have "length (dropWhile isSpace r) \<le> length cs"
    using rc by (simp add: length_dropWhile_le)
  moreover have "length r \<le> length s" using r by (simp add: length_dropWhile_le)
  ultimately show "(dropWhile isSpace r, s) \<in> measure length" using rc by simp
qed

declare split_ws.simps [simp del]

section \<open>Similarity estimator\<close>

text \<open>
  A JavaScript number that results from dividing two array lengths: the quotient, or
  \<^verbatim>\<open>NaN\<close> for \<^verbatim>\<open>0 / 0\<close>. Quotients are kept exact.
\<close>

datatype number = NaN | Num rat

text \<open>\<^verbatim>\<open>words2.includes(word)\<close>\<close>

definition includes_elem :: "'a list \<Rightarrow> 'a \<Rightarrow> bool" where
  "includes_elem xs x = (x \<in> set xs)"

text \<open>
  \<^verbatim>\<open>AIService.calculateSimilarity\<close>. The intersection keeps every occurrence in
  \<^verbatim>\<open>words1\<close> of a word of \<^verbatim>\<open>words2\<close>; the union goes through a
  \<^verbatim>\<open>Set\<close>, which holds each word once, and only its size is used. When the union
  is empty so is the intersection, and the division is \<^verbatim>\<open>0 / 0\<close>.
\<close>

definition calculateSimilarity :: "string \<Rightarrow> string \<Rightarrow> number" where
  "calculateSimilarity content1 content2 =
     (let words1 = split_ws (toLowerCase content1);
          words2 = split_ws (toLowerCase content2);
          intersection = filter (\<lambda>word. includes_elem words2 word) words1;
          union = remdups (words1 @ words2)
      in if length union = 0 then NaN
         else Num (rat_of_nat (length intersection) / rat_of_nat (length union)))"

section \<open>String helpers of the standard library\<close>

text \<open>\<^verbatim>\<open>s.startsWith(p)\<close>\<close>

fun startsWith :: "string \<Rightarrow> string \<Rightarrow> bool" where
  "startsWith s [] = True"
| "startsWith [] (p # ps) = False"
| "startsWith (c # cs) (p # ps) = (c = p \<and> startsWith cs ps)"

text \<open>\<^verbatim>\<open>xs.join(sep)\<close>\<close>

fun join :: "string \<Rightarrow> string list \<Rightarrow> string" where
  "join sep [] = []"
| "join sep [x] = x"
| "join sep (x # y # ys) = x @ sep @ join sep (y # ys)"

definition LF :: char where
  "LF = CHR 0x0A"

text \<open>
  A template literal is written as the list of its lines; \<open>template\<close> puts the line
  feeds back between them.
\<close>

definition template :: "string list \<Rightarrow> string" where
  "template ls = join [LF] ls"

text \<open>\<^verbatim>\<open>s.split(d)\<close> for a separator \<open>d\<close> of one character.\<close>

fun split_on :: "char \<Rightarrow> string \<Rightarrow> string list" where
  "split_on d [] = [] # []"
| "split_on d (c # cs) =
     (if c = d then [] # split_on d cs
      else (case split_on d cs of [] \<Rightarrow> [c] # [] | w # ws \<Rightarrow> (c # w) # ws))"

text \<open>\<^verbatim>\<open>s.trim()\<close>\<close>

definition trim :: "string \<Rightarrow> string" where
  "trim s = rev (dropWhile isSpace (rev (dropWhile isSpace s)))"

text \<open>
  The lazy group of \<^verbatim>\<open>(.*?)d\<close> under the \<^verbatim>\<open>s\<close> flag: the shortest prefix of the
  text that is followed by the delimiter \<open>d\<close>, if there is one.
\<close>

fun lazyUpTo :: "string \<Rightarrow> string \<Rightarrow> string option" where
  "lazyUpTo d [] = (if d = [] then Some [] else None)"
| "lazyUpTo d (c # cs) =
     (if startsWith (c # cs) d then Some []
      else map_option ((#) c) (lazyUpTo d cs))"

section \<open>JSON values\<close>

datatype json =
    JNull
  | JBool bool
  | JNum rat
  | JStr string
  | JArr "json list"
  | JObj "(string \<times> json) list"

text \<open>
  An object lists its properties; where a name occurs twice the later entry is the
  property, as after \<^verbatim>\<open>JSON.parse\<close> and \<^verbatim>\<open>Object.fromEntries\<close>.
\<close>

definition fromEntries :: "(string \<times> 'a) list \<Rightarrow> (string \<rightharpoonup> 'a)" where
  "fromEntries kvs = map_of (rev kvs)"

text \<open>
  Reading the property \<open>k\<close> of a value that is not \<^verbatim>\<open>null\<close>; \<open>None\<close> is
  \<^verbatim>\<open>undefined\<close>. The names read by this program are \<^verbatim>\<open>choices\<close>,
  \<^verbatim>\<open>message\<close>, \<^verbatim>\<open>content\<close>, \<^verbatim>\<open>text\<close> and the index \<^verbatim>\<open>0\<close>:
  of these an array and a string have only the index.
\<close>

definition getProp :: "json \<Rightarrow> string \<Rightarrow> json option" where
  "getProp v k =
     (case v of
        JObj kvs \<Rightarrow> fromEntries kvs k
      | JArr xs \<Rightarrow> (if k = ''0'' then (case xs of [] \<Rightarrow> None | x # _ \<Rightarrow> Some x) else None)
      | JStr s \<Rightarrow> (if k = ''0'' then (case s of [] \<Rightarrow> None | c # _ \<Rightarrow> Some (JStr [c])) else None)
      | _ \<Rightarrow> None)"

text \<open>\<^verbatim>\<open>v?.k\<close> and \<^verbatim>\<open>v?.[0]\<close>: \<^verbatim>\<open>undefined\<close> when \<open>v\<close> is \<^verbatim>\<open>undefined\<close> or \<^verbatim>\<open>null\<close>.\<close>

fun optChain :: "json option \<Rightarrow> string \<Rightarrow> json option" where
  "optChain None k = None"
| "optChain (Some JNull) k = None"
| "optChain (Some v) k = getProp v k"

text \<open>The values that count as true.\<close>

fun truthy :: "json \<Rightarrow> bool" where
  "truthy JNull = False"
| "truthy (JBool b) = b"
| "truthy (JNum n) = (n \<noteq> 0)"
| "truthy (JStr s) = (s \<noteq> [])"
| "truthy (JArr xs) = True"
| "truthy (JObj kvs) = True"

text \<open>\<^verbatim>\<open>a || b\<close>, where \<open>b\<close> is defined: \<open>a\<close> when it is true, otherwise \<open>b\<close>.\<close>

definition orElse :: "json option \<Rightarrow> json \<Rightarrow> json" where
  "orElse a b = (case a of None \<Rightarrow> b | Some v \<Rightarrow> if truthy v then v else b)"

section \<open>Settings, errors and the world outside\<close>

datatype provider = openai | anthropic | local

record settings =
  apiKey :: string
  apiProvider :: provider
  apiEndpoint :: string
  fleetingNotesFolder :: string
  permanentNotesFolder :: string
  structureNotesFolder :: string
  autoProcess :: bool
  connectionThreshold :: rat

definition DEFAULT_SETTINGS :: settings where
  "DEFAULT_SETTINGS =
     \<lparr> apiKey = [],
       apiProvider = openai,
       apiEndpoint = ''https://api.openai.com/v1/chat/completions'',
       fleetingNotesFolder = ''Fleeting Notes'',
       permanentNotesFolder = ''Permanent Notes'',
       structureNotesFolder = ''Structure Notes'',
       autoProcess = False,
       connectionThreshold = 7 / 10 \<rparr>"

text \<open>
  What a call can throw: \<^verbatim>\<open>new Error(message)\<close>, the \<^verbatim>\<open>TypeError\<close> of reading a
  property of \<^verbatim>\<open>null\<close>, and the rejection of \<^verbatim>\<open>fetch\<close> or of
  \<^verbatim>\<open>response.json()\<close> or the exception of \<^verbatim>\<open>JSON.parse\<close>, with whatever the host
  reports.
\<close>

datatype error = Error string | TypeError | Rejected string

text \<open>The error of a missing API key, the specification's \<^verbatim>\<open>ConfigurationError\<close>.\<close>

definition ConfigurationError :: error where
  "ConfigurationError = Error ''API key not configured''"

record http_request =
  url :: string
  http_method :: string
  headers :: "(string \<times> string) list"
  body :: json

text \<open>
  A file of the vault, with the text that \<^verbatim>\<open>vault.read\<close> returns for it.
\<close>

record tfile =
  path :: string
  name :: string
  contents :: string

datatype modal = ProcessingModal tfile string

text \<open>
  The state the plugin works on: the vault (files and folders), the file open in the
  workspace, and the trace of what the plugin did: the files read, the files created or
  modified, the requests sent, the notices shown and the dialogs opened.
\<close>

record world =
  files :: "tfile list"
  folders :: "string list"
  workspaceActiveFile :: "tfile option"
  reads :: "string list"
  writes :: "(string \<times> string) list"
  requests :: "http_request list"
  notices :: "string list"
  modals :: "modal list"

text \<open>
  The remote endpoint: what the \<open>n\<close>-th request of a run is answered with, the parsed
  JSON of the response or the rejection of \<^verbatim>\<open>fetch\<close> or \<^verbatim>\<open>response.json()\<close>.
\<close>

type_synonym network = "nat \<Rightarrow> http_request \<Rightarrow> error + json"

definition getFiles :: "world \<Rightarrow> tfile list" where
  "getFiles w = files w"

definition vault_read :: "tfile \<Rightarrow> world \<Rightarrow> string \<times> world" where
  "vault_read f w = (contents f, w\<lparr>reads := reads w @ [path f]\<rparr>)"

definition Notice :: "string \<Rightarrow> world \<Rightarrow> world" where
  "Notice msg w = w\<lparr>notices := notices w @ [msg]\<rparr>"

definition openModal :: "modal \<Rightarrow> world \<Rightarrow> world" where
  "openModal m w = w\<lparr>modals := modals w @ [m]\<rparr>"

section \<open>Text-generation client\<close>

text \<open>
  The value \<^verbatim>\<open>callLLM\<close> returns for the parsed response \<open>data\<close>:
  \<^verbatim>\<open>data.choices?.[0]?.message?.content || data.content?.[0]?.text || ''\<close>.
  Reading \<^verbatim>\<open>data.choices\<close> throws when \<open>data\<close> is \<^verbatim>\<open>null\<close>.
\<close>

definition completion :: "json \<Rightarrow> error + json" where
  "completion data =
     (if data = JNull then Inl TypeError
      else Inr
        (orElse (optChain (optChain (optChain (getProp data ''choices'') ''0'') ''message'') ''content'')
           (orElse (optChain (optChain (getProp data ''content'') ''0'') ''text'')
              (JStr []))))"

definition callLLM :: "settings \<Rightarrow> network \<Rightarrow> string \<Rightarrow> world \<Rightarrow> (error + json) \<times> world" where
  "callLLM st net prompt w =
     (if apiKey st = [] then (Inl (Error ''API key not configured''), w)
      else
        let hdrs = [(''Content-Type'', ''application/json''),
                    (''Authorization'', ''Bearer '' @ apiKey st)];
            bdy = JObj
              [(''model'', JStr (if apiProvider st = openai then ''gpt-4''
                                 else ''claude-3-sonnet-20240229'')),
               (''messages'', JArr [JObj [(''role'', JStr ''user''), (''content'', JStr prompt)]]),
               (''max_tokens'', JNum 2000),
               (''temperature'', JNum (7 / 10))];
            req = \<lparr> url = apiEndpoint st, http_method = ''POST'', headers = hdrs, body = bdy \<rparr>;
            w' = w\<lparr>requests := requests w @ [req]\<rparr>
        in case net (length (requests w)) req of
             Inl e \<Rightarrow> (Inl e, w')
           | Inr data \<Rightarrow> (completion data, w'))"

section \<open>Similar notes\<close>

record suggestion =
  file_name :: string
  similarity :: rat
  reason :: json

definition explainConnection ::
  "settings \<Rightarrow> network \<Rightarrow> string \<Rightarrow> string \<Rightarrow> world \<Rightarrow> (error + json) \<times> world" where
  "explainConnection st net content1 content2 w =
     callLLM st net
       (template
          ['''',
           ''Explain how these two notes connect:'',
           '''',
           ''Note 1: '' @ take 200 content1 @ ''...'',
           ''Note 2: '' @ take 200 content2 @ ''...'',
           '''',
           ''Provide a brief explanation of their relationship.'',
           ''''])
       w"

text \<open>
  \<^verbatim>\<open>xs.sort(cmp)\<close>: the sort is stable, so for a comparison that orders the elements
  its result is the one of insertion from the right.
\<close>

fun insert_by :: "('a \<Rightarrow> 'a \<Rightarrow> rat) \<Rightarrow> 'a \<Rightarrow> 'a list \<Rightarrow> 'a list" where
  "insert_by cmp x [] = [x]"
| "insert_by cmp x (y # ys) =
     (if cmp x y \<le> 0 then x # y # ys else y # insert_by cmp x ys)"

definition sort_by :: "('a \<Rightarrow> 'a \<Rightarrow> rat) \<Rightarrow> 'a list \<Rightarrow> 'a list" where
  "sort_by cmp xs = foldr (insert_by cmp) xs []"

text \<open>
  The loop of \<^verbatim>\<open>findSimilarNotes\<close> over the permanent notes. \<^verbatim>\<open>NaN > t\<close> is
  false, so every score that is pushed is a quotient.
\<close>

fun findSimilarNotes_loop ::
  "settings \<Rightarrow> network \<Rightarrow> string \<Rightarrow> tfile list \<Rightarrow> suggestion list \<Rightarrow> world
     \<Rightarrow> (error + suggestion list) \<times> world" where
  "findSimilarNotes_loop st net content [] similarities w = (Inr similarities, w)"
| "findSimilarNotes_loop st net content (f # fs) similarities w =
     (let (noteContent, w1) = vault_read f w
      in case calculateSimilarity content noteContent of
           NaN \<Rightarrow> findSimilarNotes_loop st net content fs similarities w1
         | Num sim \<Rightarrow>
             if sim > connectionThreshold st then
               (case explainConnection st net content noteContent w1 of
                  (Inl e, w2) \<Rightarrow> (Inl e, w2)
                | (Inr r, w2) \<Rightarrow>
                    findSimilarNotes_loop st net content fs
                      (similarities @ [\<lparr> file_name = name f, similarity = sim, reason = r \<rparr>]) w2)
             else findSimilarNotes_loop st net content fs similarities w1)"

definition findSimilarNotes ::
  "settings \<Rightarrow> network \<Rightarrow> string \<Rightarrow> world \<Rightarrow> (error + suggestion list) \<times> world" where
  "findSimilarNotes st net content w =
     (let permanentNotes = filter (\<lambda>f. startsWith (path f) ''Permanent Notes/'') (getFiles w)
      in case findSimilarNotes_loop st net content permanentNotes [] w of
           (Inl e, w') \<Rightarrow> (Inl e, w')
         | (Inr similarities, w') \<Rightarrow>
             (Inr (sort_by (\<lambda>a b. similarity b - similarity a) similarities), w'))"

section \<open>Writing topics and orphaned notes\<close>












section \<open>Capture and promote\<close>

text \<open>
  \<^verbatim>\<open>content.match(/^---\n(.*?)\n---/s)\<close>: the text must open with a line
  \<^verbatim>\<open>---\<close>; the group is the shortest text after it that a line feed and
  \<^verbatim>\<open>---\<close> follow.
\<close>

definition frontmatterMatch :: "string \<Rightarrow> string option" where
  "frontmatterMatch content =
     (if startsWith content (''---'' @ [LF]) then lazyUpTo (LF # ''---'') (drop 4 content)
      else None)"

text \<open>
  \<^verbatim>\<open>ZettelkastenPlugin.extractFrontmatter\<close>. For a line with a colon,
  \<^verbatim>\<open>const [key, ...value] = line.split(':')\<close> makes \<open>key\<close> the text before the first
  colon and \<^verbatim>\<open>value.join(':')\<close> the text after it. Nothing in the \<^verbatim>\<open>try\<close> block
  throws.
\<close>

definition extractFrontmatter :: "string \<Rightarrow> (string \<rightharpoonup> string)" where
  "extractFrontmatter content =
     (case frontmatterMatch content of
        None \<Rightarrow> Map.empty
      | Some block \<Rightarrow>
          fromEntries
            (map (\<lambda>line. (trim (takeWhile (\<lambda>c. c \<noteq> CHR '':'') line),
                          trim (drop 1 (dropWhile (\<lambda>c. c \<noteq> CHR '':'') line))))
               (filter (\<lambda>line. CHR '':'' \<in> set line) (split_on LF block))))"

text \<open>
  \<^verbatim>\<open>generateTimestamp\<close>, from the text \<open>now\<close> that
  \<^verbatim>\<open>new Date().toISOString()\<close> returns.
\<close>

definition generateTimestamp :: "string \<Rightarrow> string" where
  "generateTimestamp now =
     take 19 (map (\<lambda>c. if c = CHR '':'' \<or> c = CHR ''.'' then CHR ''-'' else c) now)"

text \<open>
  The host's vault, as far as \<^verbatim>\<open>createNote\<close> uses it: a path exists when it is a
  folder or a file; \<^verbatim>\<open>vault.create\<close> refuses a path that is a file already, and names
  the new file after the last segment of its path.
\<close>

definition adapter_exists :: "world \<Rightarrow> string \<Rightarrow> bool" where
  "adapter_exists w p = (p \<in> set (folders w) \<or> p \<in> set (map path (files w)))"

definition createFolder :: "string \<Rightarrow> world \<Rightarrow> world" where
  "createFolder p w = w\<lparr>folders := folders w @ [p]\<rparr>"

definition vault_create :: "string \<Rightarrow> string \<Rightarrow> world \<Rightarrow> (error + tfile) \<times> world" where
  "vault_create p c w =
     (if p \<in> set (map path (files w)) then (Inl (Error ''File already exists.''), w)
      else
        let f = \<lparr> path = p, name = rev (takeWhile (\<lambda>c. c \<noteq> CHR ''/'') (rev p)), contents = c \<rparr>
        in (Inr f, w\<lparr>files := files w @ [f], writes := writes w @ [(p, c)]\<rparr>))"

text \<open>
  \<^verbatim>\<open>createNote\<close>. \<^verbatim>\<open>path.substring(0, path.lastIndexOf('/'))\<close> is the text before
  the last slash, and the empty text when there is no slash.
\<close>

definition createNote :: "string \<Rightarrow> string \<Rightarrow> world \<Rightarrow> (error + tfile) \<times> world" where
  "createNote p content w =
     (let folderPath =
            (if CHR ''/'' \<in> set p then rev (drop 1 (dropWhile (\<lambda>c. c \<noteq> CHR ''/'') (rev p)))
             else []);
          w1 = (if \<not> adapter_exists w folderPath then createFolder folderPath w else w)
      in vault_create p content w1)"

text \<open>
  The text of a new fleeting note, for the time stamp of its title, the text \<open>created\<close>
  of \<^verbatim>\<open>new Date().toISOString()\<close> and the text the user entered.
\<close>

definition noteContent :: "string \<Rightarrow> string \<Rightarrow> string \<Rightarrow> string" where
  "noteContent timestamp created content =
     template
       [''---'',
        ''type: fleeting'',
        ''created: '' @ created,
        ''processed: false'',
        ''---'',
        '''',
        ''# Fleeting Note - '' @ timestamp,
        '''',
        content,
        '''',
        ''## Processing Notes'',
        ''<!-- AI will add processing suggestions here -->'',
        '''']"

text \<open>
  \<^verbatim>\<open>createFleetingNote\<close>: \<open>input\<close> is what the user entered at the prompt,
  \<open>now1\<close> and \<open>now2\<close> are the two readings of the clock.
\<close>

definition createFleetingNote ::
  "settings \<Rightarrow> string \<Rightarrow> string \<Rightarrow> string \<Rightarrow> world \<Rightarrow> (error + unit) \<times> world" where
  "createFleetingNote st input now1 now2 w =
     (let content = input
      in if content = [] then (Inr (), w)
         else
           let timestamp = generateTimestamp now1;
               fileName = ''Fleeting-'' @ timestamp @ ''.md'';
               filePath = fleetingNotesFolder st @ ''/'' @ fileName
           in case createNote filePath (noteContent timestamp now2 content) w of
                (Inl e, w') \<Rightarrow> (Inl e, w')
              | (Inr f, w') \<Rightarrow> (Inr (), Notice ''Fleeting note created!'' w'))"

text \<open>\<^verbatim>\<open>processCurrentNoteToPermanent\<close>\<close>

definition processCurrentNoteToPermanent :: "world \<Rightarrow> world" where
  "processCurrentNoteToPermanent w =
     (case workspaceActiveFile w of
        None \<Rightarrow> Notice ''No active file'' w
      | Some activeFile \<Rightarrow>
          let (content, w1) = vault_read activeFile w;
              frontmatter = extractFrontmatter content
          in if frontmatter ''type'' \<noteq> Some ''fleeting''
             then Notice ''Current note is not a fleeting note'' w1
             else openModal (ProcessingModal activeFile content) w1)"

section \<open>Concrete inputs\<close>

definition emptyWorld :: world where
  "emptyWorld =
     \<lparr> files = [], folders = [], workspaceActiveFile = None, reads = [], writes = [],
       requests = [], notices = [], modals = [] \<rparr>"

definition keyedSettings :: settings where
  "keyedSettings = DEFAULT_SETTINGS\<lparr>apiKey := ''sk-test''\<rparr>"

text \<open>An endpoint that answers every request with the same JSON value.\<close>

definition answering :: "json \<Rightarrow> network" where
  "answering data = (\<lambda>n req. Inr data)"

definition chatShape :: json where
  "chatShape = JObj [(''choices'', JArr [JObj [(''message'', JObj [(''content'', JStr ''hi'')])]])]"

definition messagesShape :: json where
  "messagesShape = JObj [(''content'', JArr [JObj [(''text'', JStr ''hi'')]])]"

definition bothShapes :: json where
  "bothShapes =
     JObj [(''choices'', JArr [JObj [(''message'', JObj [(''content'', JStr [])])]]),
           (''content'', JArr [JObj [(''text'', JStr ''alt'')]])]"

definition exampleVault :: world where
  "exampleVault = emptyWorld\<lparr>files :=
     [\<lparr> path = ''Permanent Notes/links.md'', name = ''links.md'',
        contents = ''notes link ideas'' \<rparr>,
      \<lparr> path = ''Fleeting Notes/Fleeting-1.md'', name = ''Fleeting-1.md'',
        contents = ''atomic notes link ideas'' \<rparr>,
      \<lparr> path = ''Permanent Notes/atomic.md'', name = ''atomic.md'',
        contents = ''atomic notes link ideas'' \<rparr>]\<rparr>"

definition zettelFile :: tfile where
  "zettelFile =
     \<lparr> path = ''Permanent Notes/zettel.md'', name = ''zettel.md'', contents = ''zettel note'' \<rparr>"

definition halfVault :: world where
  "halfVault = emptyWorld\<lparr>files := [zettelFile]\<rparr>"

definition permanentNote :: tfile where
  "permanentNote =
     \<lparr> path = ''Permanent Notes/atomic.md'', name = ''atomic.md'',
       contents =
         template [''---'', ''type: permanent'', ''created: 2026-11-02T18:09:00.000Z'', ''---'',
                   '''', ''# Atomic notes''] \<rparr>"

section \<open>The permanent notes of a vault\<close>

text \<open>The files of the vault whose path starts with the literal \<^verbatim>\<open>Permanent Notes/\<close>.\<close>

definition permanentNotes :: "world \<Rightarrow> tfile list" where
  "permanentNotes w = filter (\<lambda>f. startsWith (path f) ''Permanent Notes/'') (files w)"

section \<open>Field paths, as the specification words them\<close>

text \<open>
  The specification speaks of a field path such as \<^verbatim>\<open>choices[0].message.content\<close>
  being present in a response. \<open>fieldPath v ks\<close> follows the names \<open>ks\<close> from \<open>v\<close>,
  one property after the other; the path is present when every step finds a property.
\<close>

fun fieldPath :: "json \<Rightarrow> string list \<Rightarrow> json option" where
  "fieldPath v [] = Some v"
| "fieldPath v (k # ks) =
     (if v = JNull then None
      else (case getProp v k of None \<Rightarrow> None | Some v' \<Rightarrow> fieldPath v' ks))"

section \<open>Properties of the similarity estimator\<close>

lemma split_ws_not_Nil: "split_ws s \<noteq> []"
  by (subst split_ws.simps) (simp add: Let_def)

lemma calculateSimilarity_not_NaN: "calculateSimilarity a b \<noteq> NaN"
  by (simp add: calculateSimilarity_def Let_def split_ws_not_Nil)

lemma filter_includes_self: "filter (\<lambda>word. includes_elem ws word) ws = ws"
  by (simp add: includes_elem_def)

lemma similarity_self_distinct:
  assumes d: "distinct (split_ws (toLowerCase a))"
  shows "calculateSimilarity a a = Num 1"
proof -
  let ?ws = "split_ws (toLowerCase a)"
  have "length (remdups (?ws @ ?ws)) = card (set ?ws)"
    by (simp add: length_remdups_card_conv)
  also have "\<dots> = length ?ws" using d by (rule distinct_card)
  finally have u: "length (remdups (?ws @ ?ws)) = length ?ws" .
  have pos: "length ?ws \<noteq> 0" using split_ws_not_Nil by simp
  show ?thesis
    using pos by (simp add: calculateSimilarity_def Let_def filter_includes_self u)
qed

text \<open>
  C1, as the code has it. The similarity of a text with itself is never \<^verbatim>\<open>NaN\<close>, and it
  is 1 whenever no word occurs twice among the words of the text. The empty text is such a
  text: its only word is the empty one, and its similarity with itself is 1.
\<close>

theorem similarity_self:
  "calculateSimilarity a a \<noteq> NaN \<and>
   (distinct (split_ws (toLowerCase a)) \<longrightarrow> calculateSimilarity a a = Num 1) \<and>
   calculateSimilarity [] [] = Num 1"
proof -
  have "distinct (split_ws (toLowerCase []))"
    by (simp add: toLowerCase_def split_ws.simps [of "[]"])
  then have "calculateSimilarity [] [] = Num 1" by (rule similarity_self_distinct)
  then show ?thesis
    using calculateSimilarity_not_NaN similarity_self_distinct by blast
qed

theorem similarity_self_witness:
  "distinct (split_ws (toLowerCase ''Atomic notes link ideas'')) \<and>
   calculateSimilarity ''Atomic notes link ideas'' ''Atomic notes link ideas'' = Num 1"
proof -
  have h: "distinct (split_ws (toLowerCase ''Atomic notes link ideas''))" by code_simp
  show ?thesis using h similarity_self [of "''Atomic notes link ideas''"] by simp
qed

text \<open>
  C1, as the specification states it, fails at the empty text: the similarity of two empty
  texts is 1, not 0.
\<close>

theorem similarity_empty_counterexample:
  "calculateSimilarity [] [] = Num 1 \<and> calculateSimilarity [] [] \<noteq> Num 0"
  by code_simp

text \<open>
  C2: the similarity of two non-empty texts should lie between 0 and 1. A word that occurs
  twice in the first text is counted twice in the intersection and once in the union: here
  the six words of the first text all occur in the second, the union has four words, and
  the similarity is 3/2.
\<close>

theorem similarity_above_one:
  "calculateSimilarity ''to be or not to be'' ''to be or not'' = Num (3 / 2)"
  by code_simp

text \<open>
  C3: the similarity should not depend on the order of its arguments. The intersection
  counts the occurrences in the first text only, so exchanging the texts changes the result.
\<close>

theorem similarity_asymmetric:
  "calculateSimilarity ''x x'' ''x'' = Num 2 \<and> calculateSimilarity ''x'' ''x x'' = Num 1"
  by code_simp

section \<open>Properties of the text-generation client\<close>

text \<open>
  C8: with an empty API key the client fails with the error of a missing key before it
  sends anything: no request is added to the trace, and the world is as it was.
\<close>

theorem callLLM_no_key:
  assumes "apiKey st = []"
  shows "fst (callLLM st net prompt w) = Inl ConfigurationError \<and>
         snd (callLLM st net prompt w) = w \<and>
         requests (snd (callLLM st net prompt w)) = requests w"
  using assms by (simp add: callLLM_def ConfigurationError_def)

theorem callLLM_no_key_witness:
  "apiKey DEFAULT_SETTINGS = [] \<and>
   fst (callLLM DEFAULT_SETTINGS (answering chatShape) ''Explain'' emptyWorld)
     = Inl ConfigurationError \<and>
   requests (snd (callLLM DEFAULT_SETTINGS (answering chatShape) ''Explain'' emptyWorld)) = []"
proof -
  have h: "apiKey DEFAULT_SETTINGS = []" by (simp add: DEFAULT_SETTINGS_def)
  show ?thesis
    using h callLLM_no_key [OF h, of "answering chatShape" "''Explain''" emptyWorld]
    by (simp add: emptyWorld_def)
qed

lemma optChain_fieldPath: "optChain (fieldPath v ks) k = fieldPath v (ks @ [k])"
proof (induction ks arbitrary: v)
  case Nil
  show ?case by (cases v) (simp_all split: option.splits)
next
  case (Cons a ks)
  show ?case
  proof (cases "v = JNull")
    case True
    then show ?thesis by simp
  next
    case False
    show ?thesis
    proof (cases "getProp v a")
      case None
      with False show ?thesis by simp
    next
      case (Some v')
      with False Cons.IH [of v'] show ?thesis by simp
    qed
  qed
qed

lemma completion_fieldPath:
  assumes "data \<noteq> JNull"
  shows "completion data =
     Inr (orElse (fieldPath data [''choices'', ''0'', ''message'', ''content''])
            (orElse (fieldPath data [''content'', ''0'', ''text'']) (JStr [])))"
proof -
  have 1: "getProp data k = fieldPath data [k]" for k
    using assms by (simp split: option.splits)
  have p: "optChain (optChain (optChain (getProp data ''choices'') ''0'') ''message'') ''content''
             = fieldPath data [''choices'', ''0'', ''message'', ''content'']"
    by (simp only: 1 optChain_fieldPath append.simps)
  have q: "optChain (optChain (getProp data ''content'') ''0'') ''text''
             = fieldPath data [''content'', ''0'', ''text'']"
    by (simp only: 1 optChain_fieldPath append.simps)
  show ?thesis
    using assms by (simp only: completion_def p q if_False)
qed

lemma callLLM_answer:
  assumes "apiKey st \<noteq> []" and "\<forall>req. net (length (requests w)) req = Inr data"
  shows "fst (callLLM st net prompt w) = completion data"
  using assms by (simp add: callLLM_def Let_def)

lemma callLLM_answering:
  assumes "apiKey st \<noteq> []"
  shows "fst (callLLM st (answering data) prompt w) = completion data"
  using assms by (intro callLLM_answer) (simp_all add: answering_def)

text \<open>
  C5, as the code has it. When the key is set and the endpoint answers with a JSON value
  \<open>data\<close> other than \<^verbatim>\<open>null\<close>, the client returns the value at
  \<^verbatim>\<open>choices[0].message.content\<close> when that path is present and its value counts
  as true (for a text: is not empty); otherwise the value at \<^verbatim>\<open>content[0].text\<close>
  when that path is present and its value counts as true; otherwise the empty text. The
  three responses of the scenario give \<^verbatim>\<open>hi\<close>, \<^verbatim>\<open>hi\<close> and the empty text.
\<close>

theorem callLLM_completion:
  assumes key: "apiKey st \<noteq> []"
    and net: "\<forall>req. net (length (requests w)) req = Inr data"
    and obj: "data \<noteq> JNull"
  shows
    "(\<forall>v. fieldPath data [''choices'', ''0'', ''message'', ''content''] = Some v \<and> truthy v
          \<longrightarrow> fst (callLLM st net prompt w) = Inr v) \<and>
     (\<forall>u. \<not> (\<exists>v. fieldPath data [''choices'', ''0'', ''message'', ''content''] = Some v \<and> truthy v)
          \<and> fieldPath data [''content'', ''0'', ''text''] = Some u \<and> truthy u
          \<longrightarrow> fst (callLLM st net prompt w) = Inr u) \<and>
     (\<not> (\<exists>v. fieldPath data [''choices'', ''0'', ''message'', ''content''] = Some v \<and> truthy v)
          \<and> \<not> (\<exists>u. fieldPath data [''content'', ''0'', ''text''] = Some u \<and> truthy u)
          \<longrightarrow> fst (callLLM st net prompt w) = Inr (JStr [])) \<and>
     fst (callLLM st (answering chatShape) prompt w) = Inr (JStr ''hi'') \<and>
     fst (callLLM st (answering messagesShape) prompt w) = Inr (JStr ''hi'') \<and>
     fst (callLLM st (answering (JObj [])) prompt w) = Inr (JStr [])"
proof -
  let ?p = "fieldPath data [''choices'', ''0'', ''message'', ''content'']"
  let ?q = "fieldPath data [''content'', ''0'', ''text'']"
  have r: "fst (callLLM st net prompt w) = Inr (orElse ?p (orElse ?q (JStr [])))"
    using callLLM_answer [where st = st and net = net and w = w and data = data] key net
      completion_fieldPath [OF obj]
    by simp
  have s1: "completion chatShape = Inr (JStr ''hi'')" by code_simp
  have s2: "completion messagesShape = Inr (JStr ''hi'')" by code_simp
  have s3: "completion (JObj []) = Inr (JStr [])" by code_simp
  have cases: "(\<forall>v. ?p = Some v \<and> truthy v \<longrightarrow> fst (callLLM st net prompt w) = Inr v) \<and>
     (\<forall>u. \<not> (\<exists>v. ?p = Some v \<and> truthy v) \<and> ?q = Some u \<and> truthy u
          \<longrightarrow> fst (callLLM st net prompt w) = Inr u) \<and>
     (\<not> (\<exists>v. ?p = Some v \<and> truthy v) \<and> \<not> (\<exists>u. ?q = Some u \<and> truthy u)
          \<longrightarrow> fst (callLLM st net prompt w) = Inr (JStr []))"
    unfolding r by (cases ?p; cases ?q) (auto simp: orElse_def)
  show ?thesis
    using cases callLLM_answering [OF key] s1 s2 s3 by simp
qed

theorem callLLM_completion_witness:
  "apiKey keyedSettings \<noteq> [] \<and> messagesShape \<noteq> JNull \<and>
   fieldPath messagesShape [''choices'', ''0'', ''message'', ''content''] = None \<and>
   fieldPath messagesShape [''content'', ''0'', ''text''] = Some (JStr ''hi'') \<and>
   truthy (JStr ''hi'') \<and>
   fst (callLLM keyedSettings (answering messagesShape) ''Explain'' emptyWorld) = Inr (JStr ''hi'')"
proof -
  have key: "apiKey keyedSettings \<noteq> []" by (simp add: keyedSettings_def)
  have net: "\<forall>req. answering messagesShape (length (requests emptyWorld)) req = Inr messagesShape"
    by (simp add: answering_def)
  have obj: "messagesShape \<noteq> JNull" by (simp add: messagesShape_def)
  have p: "fieldPath messagesShape [''choices'', ''0'', ''message'', ''content''] = None"
    by code_simp
  have q: "fieldPath messagesShape [''content'', ''0'', ''text''] = Some (JStr ''hi'')"
    by code_simp
  from callLLM_completion [where st = keyedSettings and net = "answering messagesShape"
      and w = emptyWorld and data = messagesShape and prompt = "''Explain''"] key net obj p q
  have "fst (callLLM keyedSettings (answering messagesShape) ''Explain'' emptyWorld) = Inr (JStr ''hi'')"
    by simp
  with key obj p q show ?thesis by simp
qed

text \<open>
  C5, as the specification states it, fails when the first path is present with an empty
  text and the second path holds a text: the client returns the second.
\<close>

theorem callLLM_completion_counterexample:
  "fieldPath bothShapes [''choices'', ''0'', ''message'', ''content''] = Some (JStr []) \<and>
   fst (callLLM keyedSettings (answering bothShapes) ''Explain'' emptyWorld) = Inr (JStr ''alt'')"
  by code_simp

section \<open>Properties of the connection suggestions\<close>

lemma set_insert_by: "set (insert_by cmp x xs) = insert x (set xs)"
  by (induction xs) auto

lemma set_sort_by: "set (sort_by cmp xs) = set xs"
  unfolding sort_by_def by (induction xs) (simp_all add: set_insert_by)

lemma sorted_insert_by:
  "sorted_wrt (\<lambda>a b. similarity b \<le> similarity a) xs \<Longrightarrow>
   sorted_wrt (\<lambda>a b. similarity b \<le> similarity a)
     (insert_by (\<lambda>a b. similarity b - similarity a) x xs)"
  by (induction xs) (auto simp: set_insert_by)

lemma sorted_sort_by:
  "sorted_wrt (\<lambda>a b. similarity b \<le> similarity a)
     (sort_by (\<lambda>a b. similarity b - similarity a) xs)"
  unfolding sort_by_def by (induction xs) (simp_all add: sorted_insert_by)

text \<open>The loop only ever pushes scores above the threshold.\<close>

lemma loop_above_threshold:
  "findSimilarNotes_loop st net content fs acc w = (Inr r, w') \<Longrightarrow>
   \<forall>s \<in> set acc. connectionThreshold st < similarity s \<Longrightarrow>
   \<forall>s \<in> set r. connectionThreshold st < similarity s"
proof (induction fs arbitrary: acc w)
  case Nil
  then show ?case by simp
next
  case (Cons f fs)
  show ?case
  proof (cases "calculateSimilarity content (contents f)")
    case NaN
    with Cons.prems Cons.IH show ?thesis
      by (simp add: vault_read_def)
  next
    case (Num sim)
    show ?thesis
    proof (cases "connectionThreshold st < sim")
      case False
      with Num Cons.prems Cons.IH show ?thesis
        by (simp add: vault_read_def)
    next
      case True
      obtain res w2 where e: "explainConnection st net content (contents f)
           (w\<lparr>reads := reads w @ [path f]\<rparr>) = (res, w2)"
        by (cases "explainConnection st net content (contents f) (w\<lparr>reads := reads w @ [path f]\<rparr>)")
      show ?thesis
      proof (cases res)
        case (Inl err)
        with Num True e Cons.prems show ?thesis by (simp add: vault_read_def)
      next
        case (Inr rsn)
        let ?acc = "acc @ [\<lparr> file_name = name f, similarity = sim, reason = rsn \<rparr>]"
        have "findSimilarNotes_loop st net content fs ?acc w2 = (Inr r, w')"
          using Num True e Inr Cons.prems(1) by (simp add: vault_read_def)
        moreover have "\<forall>s \<in> set ?acc. connectionThreshold st < similarity s"
          using Cons.prems(2) True by simp
        ultimately show ?thesis by (rule Cons.IH)
      qed
    qed
  qed
qed

lemma findSimilarNotes_Inr:
  assumes "fst (findSimilarNotes st net content w) = Inr r"
  obtains sims w' where
    "findSimilarNotes_loop st net content
       (filter (\<lambda>f. startsWith (path f) ''Permanent Notes/'') (getFiles w)) [] w = (Inr sims, w')"
    and "r = sort_by (\<lambda>a b. similarity b - similarity a) sims"
  using assms
  by (auto simp: findSimilarNotes_def Let_def split: prod.splits sum.splits)

text \<open>
  C4: whatever the active document, the vault and the threshold, no suggestion that
  \<^verbatim>\<open>findSimilarNotes\<close> returns has a score less than or equal to the threshold. With
  the threshold at 0.7 and a single permanent note that scores 0.5, the call returns the
  empty list.
\<close>

theorem findSimilarNotes_above_threshold:
  "(\<forall>r s. fst (findSimilarNotes st net content w) = Inr r \<and> s \<in> set r
       \<longrightarrow> \<not> similarity s \<le> connectionThreshold st) \<and>
   (\<forall>f. connectionThreshold st = 7 / 10 \<and>
        filter (\<lambda>f. startsWith (path f) ''Permanent Notes/'') (getFiles w) = [f] \<and>
        calculateSimilarity content (contents f) = Num (1 / 2)
       \<longrightarrow> fst (findSimilarNotes st net content w) = Inr [])"
proof (intro conjI allI impI)
  fix r s
  assume a: "fst (findSimilarNotes st net content w) = Inr r \<and> s \<in> set r"
  then obtain sims w' where
    l: "findSimilarNotes_loop st net content
       (filter (\<lambda>f. startsWith (path f) ''Permanent Notes/'') (getFiles w)) [] w = (Inr sims, w')"
    and r: "r = sort_by (\<lambda>a b. similarity b - similarity a) sims"
    by (blast elim: findSimilarNotes_Inr)
  have "\<forall>s \<in> set sims. connectionThreshold st < similarity s"
    using loop_above_threshold [OF l] by simp
  with a r show "\<not> similarity s \<le> connectionThreshold st"
    by (auto simp: set_sort_by)
next
  fix f
  assume "connectionThreshold st = 7 / 10 \<and>
        filter (\<lambda>f. startsWith (path f) ''Permanent Notes/'') (getFiles w) = [f] \<and>
        calculateSimilarity content (contents f) = Num (1 / 2)"
  then show "fst (findSimilarNotes st net content w) = Inr []"
    by (simp add: findSimilarNotes_def vault_read_def sort_by_def)
qed

theorem findSimilarNotes_above_threshold_witness:
  "fst (findSimilarNotes keyedSettings (answering chatShape) ''Atomic notes link ideas'' exampleVault)
     = Inr [\<lparr> file_name = ''atomic.md'', similarity = 1, reason = JStr ''hi'' \<rparr>,
            \<lparr> file_name = ''links.md'', similarity = 3 / 4, reason = JStr ''hi'' \<rparr>] \<and>
   \<not> (3 / 4 :: rat) \<le> connectionThreshold keyedSettings \<and>
   connectionThreshold DEFAULT_SETTINGS = 7 / 10 \<and>
   filter (\<lambda>f. startsWith (path f) ''Permanent Notes/'') (getFiles halfVault) = [zettelFile] \<and>
   calculateSimilarity ''zettel'' (contents zettelFile) = Num (1 / 2) \<and>
   fst (findSimilarNotes DEFAULT_SETTINGS (answering chatShape) ''zettel'' halfVault) = Inr []"
proof -
  let ?links = "\<lparr> file_name = ''links.md'', similarity = 3 / 4, reason = JStr ''hi'' \<rparr>"
  have e: "fst (findSimilarNotes keyedSettings (answering chatShape) ''Atomic notes link ideas''
                  exampleVault)
     = Inr [\<lparr> file_name = ''atomic.md'', similarity = 1, reason = JStr ''hi'' \<rparr>, ?links]"
    by code_simp
  have t: "connectionThreshold DEFAULT_SETTINGS = 7 / 10" by (simp add: DEFAULT_SETTINGS_def)
  have p: "filter (\<lambda>f. startsWith (path f) ''Permanent Notes/'') (getFiles halfVault) = [zettelFile]"
    by code_simp
  have h: "calculateSimilarity ''zettel'' (contents zettelFile) = Num (1 / 2)" by code_simp
  note thm1 = findSimilarNotes_above_threshold
    [where st = keyedSettings and net = "answering chatShape"
       and content = "''Atomic notes link ideas''" and w = exampleVault]
  note thm2 = findSimilarNotes_above_threshold
    [where st = DEFAULT_SETTINGS and net = "answering chatShape"
       and content = "''zettel''" and w = halfVault]
  have "\<not> similarity ?links \<le> connectionThreshold keyedSettings"
    using thm1 e by auto
  moreover have "fst (findSimilarNotes DEFAULT_SETTINGS (answering chatShape) ''zettel'' halfVault)
      = Inr []"
    using thm2 t p h by blast
  ultimately show ?thesis using e t p h by simp
qed

text \<open>
  C9: the list that \<^verbatim>\<open>findSimilarNotes\<close> returns is in descending order of score;
  of two neighbours the earlier has the greater or an equal score.
\<close>

theorem findSimilarNotes_sorted:
  assumes "fst (findSimilarNotes st net content w) = Inr r"
  shows "sorted_wrt (\<lambda>a b. similarity b \<le> similarity a) r \<and>
         (\<forall>i. Suc i < length r \<longrightarrow> similarity (r ! Suc i) \<le> similarity (r ! i))"
proof -
  from assms obtain sims w' where r: "r = sort_by (\<lambda>a b. similarity b - similarity a) sims"
    by (blast elim: findSimilarNotes_Inr)
  have s: "sorted_wrt (\<lambda>a b. similarity b \<le> similarity a) r"
    unfolding r by (rule sorted_sort_by)
  have "similarity (r ! Suc i) \<le> similarity (r ! i)" if "Suc i < length r" for i
    using sorted_wrt_nth_less [OF s, of i "Suc i"] that by simp
  with s show ?thesis by blast
qed

theorem findSimilarNotes_sorted_witness:
  "fst (findSimilarNotes keyedSettings (answering messagesShape) ''Atomic notes link ideas''
          exampleVault)
     = Inr [\<lparr> file_name = ''atomic.md'', similarity = 1, reason = JStr ''hi'' \<rparr>,
            \<lparr> file_name = ''links.md'', similarity = 3 / 4, reason = JStr ''hi'' \<rparr>] \<and>
   sorted_wrt (\<lambda>a b. similarity b \<le> similarity a)
     [\<lparr> file_name = ''atomic.md'', similarity = 1, reason = JStr ''hi'' \<rparr>,
      \<lparr> file_name = ''links.md'', similarity = 3 / 4, reason = JStr ''hi'' \<rparr>]"
proof -
  have e: "fst (findSimilarNotes keyedSettings (answering messagesShape)
                  ''Atomic notes link ideas'' exampleVault)
     = Inr [\<lparr> file_name = ''atomic.md'', similarity = 1, reason = JStr ''hi'' \<rparr>,
            \<lparr> file_name = ''links.md'', similarity = 3 / 4, reason = JStr ''hi'' \<rparr>]"
    by code_simp
  from findSimilarNotes_sorted [OF e] e show ?thesis by blast
qed

section \<open>Properties of promotion\<close>

text \<open>
  C6: when the active document's front matter does not give \<^verbatim>\<open>type\<close> the value
  \<^verbatim>\<open>fleeting\<close>, \<^verbatim>\<open>processCurrentNoteToPermanent\<close> creates and modifies nothing,
  leaves the files and folders of the vault as they were, sends no request, does not open
  the processing dialog, and tells the user that the note is not a fleeting note.
\<close>

theorem promote_requires_fleeting:
  assumes "workspaceActiveFile w = Some f"
    and "extractFrontmatter (contents f) ''type'' \<noteq> Some ''fleeting''"
  shows "files (processCurrentNoteToPermanent w) = files w \<and>
         folders (processCurrentNoteToPermanent w) = folders w \<and>
         writes (processCurrentNoteToPermanent w) = writes w \<and>
         requests (processCurrentNoteToPermanent w) = requests w \<and>
         modals (processCurrentNoteToPermanent w) = modals w \<and>
         notices (processCurrentNoteToPermanent w)
           = notices w @ [''Current note is not a fleeting note'']"
  using assms
  by (simp add: processCurrentNoteToPermanent_def vault_read_def Notice_def)

theorem promote_requires_fleeting_witness:
  "workspaceActiveFile (emptyWorld\<lparr>workspaceActiveFile := Some permanentNote\<rparr>) = Some permanentNote \<and>
   extractFrontmatter (contents permanentNote) ''type'' = Some ''permanent'' \<and>
   writes (processCurrentNoteToPermanent (emptyWorld\<lparr>workspaceActiveFile := Some permanentNote\<rparr>)) = [] \<and>
   modals (processCurrentNoteToPermanent (emptyWorld\<lparr>workspaceActiveFile := Some permanentNote\<rparr>)) = [] \<and>
   notices (processCurrentNoteToPermanent (emptyWorld\<lparr>workspaceActiveFile := Some permanentNote\<rparr>))
     = [''Current note is not a fleeting note'']"
proof -
  let ?w = "emptyWorld\<lparr>workspaceActiveFile := Some permanentNote\<rparr>"
  have a: "workspaceActiveFile ?w = Some permanentNote" by simp
  have t: "extractFrontmatter (contents permanentNote) ''type'' = Some ''permanent''"
    by code_simp
  then have n: "extractFrontmatter (contents permanentNote) ''type'' \<noteq> Some ''fleeting''"
    by simp
  from promote_requires_fleeting [OF a n] a t show ?thesis
    by (simp add: emptyWorld_def)
qed

text \<open>With the type \<^verbatim>\<open>fleeting\<close> the processing dialog is opened instead.\<close>

lemma promote_fleeting_opens_dialog:
  assumes "workspaceActiveFile w = Some f"
    and "extractFrontmatter (contents f) ''type'' = Some ''fleeting''"
  shows "modals (processCurrentNoteToPermanent w) = modals w @ [ProcessingModal f (contents f)] \<and>
         notices (processCurrentNoteToPermanent w) = notices w \<and>
         writes (processCurrentNoteToPermanent w) = writes w"
  using assms
  by (simp add: processCurrentNoteToPermanent_def vault_read_def openModal_def)

section \<open>Properties of capture\<close>

lemma lazyUpTo_skip:
  "LF \<notin> set xs \<Longrightarrow>
   lazyUpTo (LF # d) (xs @ ys)
     = (case lazyUpTo (LF # d) ys of None \<Rightarrow> None | Some g \<Rightarrow> Some (xs @ g))"
  by (induction xs) (auto split: option.splits)

lemma split_on_skip:
  "LF \<notin> set xs \<Longrightarrow> split_on LF (xs @ LF # ys) = xs # split_on LF ys"
  by (induction xs) auto

lemma split_on_last:
  "LF \<notin> set xs \<Longrightarrow> split_on LF xs = [xs]"
  by (induction xs) auto

lemma split_on_three_lines:
  assumes "LF \<notin> set a" and "LF \<notin> set b" and "LF \<notin> set c"
  shows "split_on LF (a @ LF # b @ LF # c) = [a, b, c]"
  by (simp only: split_on_skip [OF assms(1)] split_on_skip [OF assms(2)] split_on_last [OF assms(3)])

lemma lazyUpTo_three_lines:
  assumes a: "LF \<notin> set a" and b: "LF \<notin> set (x # b)" and c: "LF \<notin> set (y # c)"
    and x: "x \<noteq> CHR ''-''" and y: "y \<noteq> CHR ''-''"
  shows "lazyUpTo (LF # ''---'') (a @ LF # (x # b) @ LF # (y # c) @ LF # ''---'' @ rest)
           = Some (a @ LF # (x # b) @ LF # (y # c))"
proof -
  let ?d = "LF # ''---''"
  have e: "lazyUpTo ?d (LF # ''---'' @ rest) = Some []" by simp
  have s3: "lazyUpTo ?d ((y # c) @ LF # ''---'' @ rest) = Some (y # c)"
    by (simp only: lazyUpTo_skip [OF c] e option.case append_Nil2)
  have s3': "lazyUpTo ?d (LF # (y # c) @ LF # ''---'' @ rest) = Some (LF # y # c)"
    using s3 y by simp
  have s2: "lazyUpTo ?d ((x # b) @ LF # (y # c) @ LF # ''---'' @ rest)
              = Some ((x # b) @ LF # y # c)"
    by (simp only: lazyUpTo_skip [OF b] s3' option.case)
  have s2': "lazyUpTo ?d (LF # (x # b) @ LF # (y # c) @ LF # ''---'' @ rest)
              = Some (LF # (x # b) @ LF # y # c)"
    using s2 x by simp
  show ?thesis
    by (simp only: lazyUpTo_skip [OF a] s2' option.case)
qed

lemma frontmatterMatch_noteContent:
  assumes "LF \<notin> set created"
  shows "frontmatterMatch (noteContent timestamp created content)
           = Some (''type: fleeting'' @ LF # (''created: '' @ created) @ LF # ''processed: false'')"
proof -
  let ?rest = "LF # [] @ LF # (''# Fleeting Note - '' @ timestamp) @ LF # [] @ LF # content
      @ LF # [] @ LF # ''## Processing Notes'' @ LF # ''<!-- AI will add processing suggestions here -->'' @ [LF]"
  let ?block = "''type: fleeting'' @ LF # (''created: '' @ created) @ LF # ''processed: false''
      @ LF # ''---'' @ ?rest"
  have nc: "noteContent timestamp created content = ''---'' @ LF # ?block"
    by (simp add: noteContent_def template_def)
  have l1: "LF \<notin> set ''type: fleeting''" by (simp add: LF_def)
  have l2: "LF \<notin> set (CHR ''c'' # ''reated: '' @ created)" using assms by (simp add: LF_def)
  have l3: "LF \<notin> set (CHR ''p'' # ''rocessed: false'')" by (simp add: LF_def)
  have "lazyUpTo (LF # ''---'') ?block
        = Some (''type: fleeting'' @ LF # (''created: '' @ created) @ LF # ''processed: false'')"
    using lazyUpTo_three_lines [OF l1 l2 l3, of ?rest] by simp
  moreover have "startsWith (noteContent timestamp created content) (''---'' @ [LF])"
    unfolding nc by simp
  moreover have "drop 4 (noteContent timestamp created content) = ?block"
    unfolding nc by simp
  ultimately show ?thesis by (simp only: frontmatterMatch_def if_True)
qed

lemma lines_noteContent:
  assumes "LF \<notin> set created"
  shows "split_on LF (''type: fleeting'' @ LF # (''created: '' @ created) @ LF # ''processed: false'')
           = [''type: fleeting'', ''created: '' @ created, ''processed: false'']"
proof -
  have l1: "LF \<notin> set ''type: fleeting''" by (simp add: LF_def)
  have l2: "LF \<notin> set (''created: '' @ created)" using assms by (simp add: LF_def)
  have l3: "LF \<notin> set ''processed: false''" by (simp add: LF_def)
  show ?thesis by (rule split_on_three_lines [OF l1 l2 l3])
qed

lemma trim_type: "trim ''type'' = ''type''" by code_simp
lemma trim_fleeting: "trim '' fleeting'' = ''fleeting''" by code_simp
lemma trim_created: "trim ''created'' = ''created''" by code_simp
lemma trim_processed: "trim ''processed'' = ''processed''" by code_simp
lemma trim_false: "trim '' false'' = ''false''" by code_simp

lemma extractFrontmatter_noteContent:
  assumes "LF \<notin> set created"
  shows "extractFrontmatter (noteContent timestamp created content)
           = fromEntries [(''type'', ''fleeting''), (''created'', trim ('' '' @ created)),
                          (''processed'', ''false'')]"
  unfolding extractFrontmatter_def frontmatterMatch_noteContent [OF assms] option.case
    lines_noteContent [OF assms]
  by (simp add: trim_type trim_fleeting trim_created trim_processed trim_false)

lemma createFleetingNote_writes:
  assumes "input \<noteq> []" and "createFleetingNote st input now1 now2 w = (Inr (), w')"
  shows "writes w' = writes w @
           [(fleetingNotesFolder st @ ''/'' @ ''Fleeting-'' @ generateTimestamp now1 @ ''.md'',
             noteContent (generateTimestamp now1) now2 input)]"
  using assms
  by (auto simp: createFleetingNote_def createNote_def vault_create_def createFolder_def
        Notice_def Let_def split: if_splits)

text \<open>
  C7: for every text the user enters, the front matter that \<^verbatim>\<open>extractFrontmatter\<close>
  reads from the text of the new fleeting note gives \<^verbatim>\<open>type\<close> the value
  \<^verbatim>\<open>fleeting\<close> and \<^verbatim>\<open>processed\<close> the value \<^verbatim>\<open>false\<close>; and this is
  the text \<^verbatim>\<open>createFleetingNote\<close> writes to the vault when it creates a note. The time
  stamp \<open>now2\<close> that \<^verbatim>\<open>toISOString\<close> returns has no line feed in it.
\<close>

theorem capture_roundtrip:
  assumes "LF \<notin> set now2"
  shows "extractFrontmatter (noteContent timestamp now2 input) ''type'' = Some ''fleeting'' \<and>
         extractFrontmatter (noteContent timestamp now2 input) ''processed'' = Some ''false'' \<and>
         (\<forall>w'. input \<noteq> [] \<and> createFleetingNote st input now1 now2 w = (Inr (), w') \<longrightarrow>
             (\<exists>p body. writes w' = writes w @ [(p, body)] \<and>
                extractFrontmatter body ''type'' = Some ''fleeting'' \<and>
                extractFrontmatter body ''processed'' = Some ''false''))"
proof -
  have fm: "extractFrontmatter (noteContent t now2 input) ''type'' = Some ''fleeting'' \<and>
         extractFrontmatter (noteContent t now2 input) ''processed'' = Some ''false''" for t
    unfolding extractFrontmatter_noteContent [OF assms]
    by (simp add: fromEntries_def)
  show ?thesis
    using fm createFleetingNote_writes [of input st now1 now2 w] by blast
qed

theorem capture_roundtrip_witness:
  "LF \<notin> set ''2026-11-02T18:09:00.001Z'' \<and>
   extractFrontmatter
     (noteContent ''2026-11-02T18-09-00'' ''2026-11-02T18:09:00.001Z'' ''idea about X'') ''type''
     = Some ''fleeting'' \<and>
   extractFrontmatter
     (noteContent ''2026-11-02T18-09-00'' ''2026-11-02T18:09:00.001Z'' ''idea about X'') ''processed''
     = Some ''false'' \<and>
   fst (createFleetingNote DEFAULT_SETTINGS ''idea about X'' ''2026-11-02T18:09:00.000Z''
          ''2026-11-02T18:09:00.001Z'' emptyWorld) = Inr () \<and>
   (\<exists>p body.
      writes (snd (createFleetingNote DEFAULT_SETTINGS ''idea about X'' ''2026-11-02T18:09:00.000Z''
                     ''2026-11-02T18:09:00.001Z'' emptyWorld)) = [(p, body)] \<and>
      extractFrontmatter body ''type'' = Some ''fleeting'' \<and>
      extractFrontmatter body ''processed'' = Some ''false'')"
proof -
  let ?run = "createFleetingNote DEFAULT_SETTINGS ''idea about X'' ''2026-11-02T18:09:00.000Z''
                ''2026-11-02T18:09:00.001Z'' emptyWorld"
  have h: "LF \<notin> set ''2026-11-02T18:09:00.001Z''" by (simp add: LF_def)
  have f: "fst ?run = Inr ()" by code_simp
  then have r: "?run = (Inr (), snd ?run)" by (simp add: prod_eq_iff)
  have i: "''idea about X'' \<noteq> []" by simp
  have w0: "writes emptyWorld = []" by (simp add: emptyWorld_def)
  note inst = capture_roundtrip
    [OF h, where timestamp = "''2026-11-02T18-09-00''" and input = "''idea about X''"
       and st = DEFAULT_SETTINGS and ?now1.0 = "''2026-11-02T18:09:00.000Z''" and w = emptyWorld]
  from inst r i have "\<exists>p body. writes (snd ?run) = writes emptyWorld @ [(p, body)] \<and>
      extractFrontmatter body ''type'' = Some ''fleeting'' \<and>
      extractFrontmatter body ''processed'' = Some ''false''"
    by blast
  with inst h f w0 show ?thesis by simp
qed

section \<open>Which files are scanned as permanent notes\<close>





















end
